theory Spec2Isabelle
  imports Complex_Main
begin

section \<open>The dual-video synchronised playback controller of \<open>VideoPlayer\<close>\<close>

text \<open>
  The component \<open>VideoMesh\<close> keeps a content video and a mask video aligned; the component
  \<open>VideoPlayer\<close> owns the play/pause flag and the status line. Both are React function
  components: their state lives in hooks (\<open>useState\<close>, \<open>useRef\<close>) and in the two
  \<open>HTMLVideoElement\<close>s, and every callback runs to completion on the one event loop.
  The model is a record of that state and one function per callback, each taking the
  state and returning the state after the callback.

  Times are JavaScript numbers, that is IEEE 754 double precision values. A time is a
  real number here (the value of the double), and the one arithmetic operation the
  callbacks perform on times, a subtraction, rounds its result to a double as the
  language prescribes. Calls to \<open>console.log\<close>, \<open>console.warn\<close> and \<open>console.error\<close> are
  left out: they change nothing the callbacks read.
\<close>

subsection \<open>Numbers\<close>

text \<open>
  Rounding to the nearest double, ties to the even significand. A double in the binade
  \<open>[2^e, 2^(e+1))\<close> is a multiple of \<open>2^(e-52)\<close>; below the smallest normal number
  \<open>2^(-1022)\<close> the doubles are the multiples of \<open>2^(-1074)\<close>. Overflow to an infinity is not
  modelled: a result that large stays a finite number above every threshold.
\<close>

definition round_half_even :: "real \<Rightarrow> int" where
  "round_half_even y =
     (let n = \<lfloor>y\<rfloor>; r = y - of_int n
      in if r < 1 / 2 then n else if 1 / 2 < r then n + 1 else if even n then n else n + 1)"

definition binade :: "real \<Rightarrow> int" where
  "binade a = max \<lfloor>log 2 a\<rfloor> (- 1022)"

definition ulp :: "real \<Rightarrow> real" where
  "ulp a = 2 powi (binade a - 52)"

definition to_double :: "real \<Rightarrow> real" where
  "to_double x =
     (if x = 0 then 0
      else sgn x * (of_int (round_half_even (\<bar>x\<bar> / ulp \<bar>x\<bar>)) * ulp \<bar>x\<bar>))"

text \<open>\<open>a - b\<close> on two numbers.\<close>

definition minus_double :: "real \<Rightarrow> real \<Rightarrow> real" where
  "minus_double a b = to_double (a - b)"


subsection \<open>The media elements\<close>

text \<open>
  The fields of an \<open>HTMLVideoElement\<close> that the source reads or writes:
  \<open>readyState\<close> (0 to 4, 3 is \<open>HAVE_FUTURE_DATA\<close>), \<open>currentTime\<close>, \<open>duration\<close> (absent
  while it is not known), whether it is paused, and \<open>error\<close>, which is \<open>null\<close> or carries
  a message.
\<close>

record html_video =
  readyState :: nat
  currentTime :: real
  duration :: "real option"
  paused :: bool
  error :: "string option"

text \<open>
  Modelled from the spec: the setter of \<open>currentTime\<close>, which belongs to the browser's
  \<open>HTMLVideoElement\<close> and is not in the source. The spec says of a media handle that
  \<open>seek(timeSeconds)\<close> "clamps to [0, duration] if duration known; otherwise passes
  through".
\<close>

definition set_currentTime :: "real \<Rightarrow> html_video \<Rightarrow> html_video" where
  "set_currentTime t el =
     el\<lparr>currentTime := (case duration el of None \<Rightarrow> t | Some d \<Rightarrow> max 0 (min d t))\<rparr>"

datatype handle = MainVideo | MaskVideo

text \<open>
  What the callbacks ask of the two elements and of the window's timers, in the order
  they ask it.
\<close>

datatype call =
    SetCurrentTime handle real
  | Play handle
  | Pause handle
  | SetInterval nat
  | ClearInterval nat

text \<open>The promise returned by \<open>play()\<close> either resolves or rejects with a reason.\<close>

datatype play_result = Resolved | Rejected string

subsection \<open>The state of the two components\<close>

text \<open>
  \<open>videoElement\<close>, \<open>maskElement\<close>, \<open>bothVideosReady\<close> and \<open>syncIntervalRef\<close> belong to
  \<open>VideoMesh\<close>; \<open>isPlaying\<close>, \<open>playerError\<close> (the hook \<open>error\<close> of \<open>VideoPlayer\<close>),
  \<open>loadingStatus\<close> and \<open>videosReady\<close> belong to \<open>VideoPlayer\<close>. \<open>timers\<close> are the
  interval timers of the window that run \<open>syncVideos\<close>, \<open>nextTimerId\<close> is the identifier
  \<open>window.setInterval\<close> hands out next, and \<open>calls\<close> is the trace of requests made so far.
  \<open>pending\<close> holds the calls of \<open>playVideo\<close> that wait at their \<open>await\<close>, oldest first,
  each with the results of its two promises.
\<close>

record player =
  videoElement :: "html_video option"
  maskElement :: "html_video option"
  bothVideosReady :: bool
  syncIntervalRef :: "nat option"
  timers :: "nat list"
  nextTimerId :: nat
  isPlaying :: bool
  playerError :: "string option"
  loadingStatus :: string
  videosReady :: bool
  calls :: "call list"
  pending :: "(play_result \<times> play_result) list"

subsection \<open>\<open>VideoMesh\<close>: the readiness check\<close>

text \<open>
  \<open>checkReady\<close> exists only when both elements do; it is the listener of \<open>canplay\<close> on
  both elements and runs once when the effect is set up.
\<close>

definition checkReady :: "player \<Rightarrow> player" where
  "checkReady s =
     (case (videoElement s, maskElement s) of
        (Some v, Some m) \<Rightarrow>
          (let videoReady = (3 \<le> readyState v);
               maskReady = (3 \<le> readyState m)
           in if videoReady \<and> maskReady \<and> \<not> bothVideosReady s
              then s\<lparr>bothVideosReady := True\<rparr>
              else s)
      | _ \<Rightarrow> s)"

subsection \<open>\<open>VideoMesh\<close>: the drift corrector\<close>

text \<open>The constant \<open>0.1\<close> of the source is the double nearest to one tenth.\<close>

definition SYNC_THRESHOLD :: real where
  "SYNC_THRESHOLD = to_double 0.1"

definition syncVideos :: "player \<Rightarrow> player" where
  "syncVideos s =
     (case (videoElement s, maskElement s) of
        (Some v, Some m) \<Rightarrow>
          (let mainTime = currentTime v;
               maskTime = currentTime m;
               timeDiff = \<bar>minus_double mainTime maskTime\<bar>
           in if timeDiff > SYNC_THRESHOLD
              then s\<lparr>maskElement := Some (set_currentTime mainTime m),
                     calls := calls s @ [SetCurrentTime MaskVideo mainTime]\<rparr>
              else s)
      | _ \<Rightarrow> s)"

text \<open>
  The two timer functions of the window. \<open>setInterval\<close> registers a timer under a fresh
  identifier and returns it; \<open>clearInterval\<close> removes the timer with that identifier.
\<close>

definition clearInterval :: "nat \<Rightarrow> player \<Rightarrow> player" where
  "clearInterval i s =
     s\<lparr>timers := removeAll i (timers s), calls := calls s @ [ClearInterval i]\<rparr>"

definition setInterval :: "player \<Rightarrow> nat \<times> player" where
  "setInterval s =
     (nextTimerId s,
      s\<lparr>timers := timers s @ [nextTimerId s],
        nextTimerId := Suc (nextTimerId s),
        calls := calls s @ [SetInterval (nextTimerId s)]\<rparr>)"

text \<open>
  \<open>if (syncIntervalRef.current)\<close> holds when the reference is neither \<open>null\<close> nor 0.
  Starting clears the timer the reference holds, if any, and stores a new one.
\<close>

definition startSyncMonitoring :: "player \<Rightarrow> player" where
  "startSyncMonitoring s =
     (let s1 = (case syncIntervalRef s of
                  Some i \<Rightarrow> if i \<noteq> 0 then clearInterval i s else s
                | None \<Rightarrow> s);
          (j, s2) = setInterval s1
      in s2\<lparr>syncIntervalRef := Some j\<rparr>)"

definition stopSyncMonitoring :: "player \<Rightarrow> player" where
  "stopSyncMonitoring s =
     (case syncIntervalRef s of
        Some i \<Rightarrow> if i \<noteq> 0 then (clearInterval i s)\<lparr>syncIntervalRef := None\<rparr> else s
      | None \<Rightarrow> s)"

subsection \<open>\<open>VideoPlayer\<close>: the callbacks handed to \<open>VideoMesh\<close>\<close>

text \<open>
  \<open>onVideoLoad\<close> and \<open>onVideoError\<close> are the props of \<open>VideoMesh\<close>; \<open>VideoPlayer\<close> passes
  its \<open>handleVideoLoad\<close> and \<open>handleVideoError\<close> for them. (\<open>setCurrentVideo\<close> stores the
  element in a hook nothing reads; it is left out.)
\<close>

definition onVideoLoad :: "player \<Rightarrow> player" where
  "onVideoLoad s = s\<lparr>loadingStatus := ''Videos loaded successfully'', playerError := None\<rparr>"

definition onVideoError :: "string \<Rightarrow> player \<Rightarrow> player" where
  "onVideoError e s = s\<lparr>playerError := Some e, loadingStatus := ''Error loading videos''\<rparr>"

subsection \<open>\<open>VideoMesh\<close>: the listeners of \<open>loadedmetadata\<close> and \<open>error\<close>\<close>

text \<open>\<open>el.error?.message || 'Unknown error'\<close>: an absent error or an empty message gives the default.\<close>

definition errorMessage :: "html_video \<Rightarrow> string" where
  "errorMessage el =
     (case error el of
        None \<Rightarrow> ''Unknown error''
      | Some msg \<Rightarrow> if msg = [] then ''Unknown error'' else msg)"

definition handleVideoLoad :: "player \<Rightarrow> player" where
  "handleVideoLoad s =
     (case (videoElement s, maskElement s) of
        (Some v, Some m) \<Rightarrow> onVideoLoad s
      | _ \<Rightarrow> s)"

definition handleVideoError :: "player \<Rightarrow> player" where
  "handleVideoError s =
     (case (videoElement s, maskElement s) of
        (Some v, Some m) \<Rightarrow> onVideoError (''Main video error: '' @ errorMessage v) s
      | _ \<Rightarrow> s)"

definition handleMaskError :: "player \<Rightarrow> player" where
  "handleMaskError s =
     (case (videoElement s, maskElement s) of
        (Some v, Some m) \<Rightarrow> onVideoError (''Mask video error: '' @ errorMessage m) s
      | _ \<Rightarrow> s)"

subsection \<open>\<open>VideoMesh\<close>: play, pause and seek\<close>

text \<open>
  A call of \<open>el.play()\<close> whose promise will resolve leaves the element not paused; one
  whose promise rejects leaves the element as it was. \<open>el.pause()\<close> leaves the element
  paused.
\<close>

definition play :: "play_result \<Rightarrow> html_video \<Rightarrow> html_video" where
  "play r el = (case r of Resolved \<Rightarrow> el\<lparr>paused := False\<rparr> | Rejected e \<Rightarrow> el)"

definition pause :: "html_video \<Rightarrow> html_video" where
  "pause el = el\<lparr>paused := True\<rparr>"

text \<open>
  \<open>playVideo\<close> is asynchronous. \<open>playVideo_body\<close> is the part up to the \<open>await\<close>: the early
  return (no result) or the state after the two assignments and the two calls of
  \<open>play()\<close>. The arguments are what the two elements make of these calls: whether each
  starts to play and its promise resolves, or its promise rejects.
\<close>

definition playVideo_body :: "play_result \<Rightarrow> play_result \<Rightarrow> player \<Rightarrow> player option" where
  "playVideo_body r1 r2 s =
     (case (videoElement s, maskElement s) of
        (Some v, Some m) \<Rightarrow>
          if \<not> bothVideosReady s then None
          else
            (let startTime = 0
             in Some (s\<lparr>videoElement := Some (play r1 (set_currentTime startTime v)),
                        maskElement := Some (play r2 (set_currentTime startTime m)),
                        calls := calls s @
                          [SetCurrentTime MainVideo startTime, SetCurrentTime MaskVideo startTime,
                           Play MainVideo, Play MaskVideo]\<rparr>))
      | _ \<Rightarrow> None)"

text \<open>
  \<open>Promise.all\<close> rejects with the reason of the promise that rejects first; when both
  promises reject, the first argument says which of the two that was.
\<close>

definition rejection :: "handle \<Rightarrow> play_result \<Rightarrow> play_result \<Rightarrow> string option" where
  "rejection h r1 r2 =
     (case (r1, r2) of
        (Resolved, Resolved) \<Rightarrow> None
      | (Rejected e, Resolved) \<Rightarrow> Some e
      | (Resolved, Rejected e) \<Rightarrow> Some e
      | (Rejected e1, Rejected e2) \<Rightarrow> Some (case h of MainVideo \<Rightarrow> e1 | MaskVideo \<Rightarrow> e2))"

text \<open>
  \<open>playVideo_rest\<close> is the part after the \<open>await\<close>: \<open>startSyncMonitoring\<close> when both promises
  have resolved, the \<open>catch\<close> branch otherwise.
\<close>

definition playVideo_rest :: "handle \<Rightarrow> play_result \<Rightarrow> play_result \<Rightarrow> player \<Rightarrow> player" where
  "playVideo_rest h r1 r2 s =
     (case rejection h r1 r2 of
        None \<Rightarrow> startSyncMonitoring s
      | Some e \<Rightarrow> onVideoError (''Playback error: '' @ e) s)"

text \<open>
  A call of \<open>playVideo\<close> returns to its caller at the \<open>await\<close> and leaves the rest pending;
  the rest of the oldest pending call runs when its promises have settled. Other callbacks
  can run in between.
\<close>

definition playVideo_call :: "play_result \<Rightarrow> play_result \<Rightarrow> player \<Rightarrow> player" where
  "playVideo_call r1 r2 s =
     (case playVideo_body r1 r2 s of
        None \<Rightarrow> s
      | Some s1 \<Rightarrow> s1\<lparr>pending := pending s1 @ [(r1, r2)]\<rparr>)"

definition playVideo_settle :: "handle \<Rightarrow> player \<Rightarrow> player" where
  "playVideo_settle h s =
     (case pending s of
        [] \<Rightarrow> s
      | (r1, r2) # ps \<Rightarrow> playVideo_rest h r1 r2 (s\<lparr>pending := ps\<rparr>))"

text \<open>
  \<open>playVideo r1 r2\<close> is a call of \<open>playVideo\<close> from its first line to its last with nothing
  running in between (and the content video's promise rejecting first when both reject).
\<close>

definition playVideo :: "play_result \<Rightarrow> play_result \<Rightarrow> player \<Rightarrow> player" where
  "playVideo r1 r2 s =
     (case playVideo_body r1 r2 s of
        None \<Rightarrow> s
      | Some s1 \<Rightarrow> playVideo_rest MainVideo r1 r2 s1)"

definition pauseVideo :: "player \<Rightarrow> player" where
  "pauseVideo s =
     (case (videoElement s, maskElement s) of
        (Some v, Some m) \<Rightarrow>
          (let s1 = stopSyncMonitoring s
           in s1\<lparr>videoElement := Some (pause v),
                  maskElement := Some (pause m),
                  calls := calls s1 @ [Pause MainVideo, Pause MaskVideo]\<rparr>)
      | _ \<Rightarrow> s)"

definition seekTo :: "real \<Rightarrow> player \<Rightarrow> player" where
  "seekTo t s =
     (case (videoElement s, maskElement s) of
        (Some v, Some m) \<Rightarrow>
          s\<lparr>videoElement := Some (set_currentTime t v),
            maskElement := Some (set_currentTime t m),
            calls := calls s @ [SetCurrentTime MainVideo t, SetCurrentTime MaskVideo t]\<rparr>
      | _ \<Rightarrow> s)"

subsection \<open>\<open>VideoPlayer\<close>: the readiness poll and the controls\<close>

text \<open>
  \<open>checkReadiness\<close> runs every 100 ms and copies the flag \<open>VideoMesh\<close> publishes on the mesh
  reference.
\<close>

definition checkReadiness :: "player \<Rightarrow> player" where
  "checkReadiness s =
     (let ready = bothVideosReady s
      in if ready \<noteq> videosReady s
         then (if ready
               then s\<lparr>videosReady := ready, loadingStatus := ''Videos synchronized and ready''\<rparr>
               else s\<lparr>videosReady := ready\<rparr>)
         else s)"

text \<open>
  \<open>togglePlayPause\<close> does not await \<open>playVideo\<close>: it flips the play flag as soon as the call
  has returned.
\<close>

definition togglePlayPause :: "play_result \<Rightarrow> play_result \<Rightarrow> player \<Rightarrow> player" where
  "togglePlayPause r1 r2 s =
     (if videosReady s
      then (let s1 = (if isPlaying s then pauseVideo s else playVideo_call r1 r2 s)
            in s1\<lparr>isPlaying := \<not> isPlaying s\<rparr>)
      else s)"

definition seekToTime :: "real \<Rightarrow> player \<Rightarrow> player" where
  "seekToTime t s = (if videosReady s then seekTo t s else s)"

subsection \<open>Events\<close>

text \<open>
  Everything that can happen to the mounted components, one event per turn of the event
  loop: the decoder changes an element (its readiness, its position as playback advances,
  its error), an element fires \<open>canplay\<close>, \<open>loadedmetadata\<close> or \<open>error\<close>, a timer fires,
  the readiness poll runs, the promises of a pending \<open>playVideo\<close> settle and its rest
  runs, or one of the transport functions is called, either through
  the buttons (\<open>togglePlayPause\<close>, \<open>seekToTime\<close>), through a click on the mesh
  (\<open>playVideo\<close>), or through the functions published on the mesh reference.
\<close>

datatype event =
    Decoder handle html_video
  | CanPlay
  | LoadedMetadata
  | ErrorEvent handle
  | Tick nat
  | CheckReadiness
  | PlayVideo play_result play_result
  | PlaySettled handle
  | PauseVideo
  | SeekTo real
  | TogglePlayPause play_result play_result
  | SeekToTime real

definition decoder :: "handle \<Rightarrow> html_video \<Rightarrow> player \<Rightarrow> player" where
  "decoder h el s =
     (case h of
        MainVideo \<Rightarrow> s\<lparr>videoElement := map_option (\<lambda>_. el) (videoElement s)\<rparr>
      | MaskVideo \<Rightarrow> s\<lparr>maskElement := map_option (\<lambda>_. el) (maskElement s)\<rparr>)"

text \<open>A timer that has been cleared no longer fires.\<close>

definition tick :: "nat \<Rightarrow> player \<Rightarrow> player" where
  "tick i s = (if i \<in> set (timers s) then syncVideos s else s)"

fun step :: "player \<Rightarrow> event \<Rightarrow> player" where
  "step s (Decoder h el) = decoder h el s"
| "step s CanPlay = checkReady s"
| "step s LoadedMetadata = handleVideoLoad s"
| "step s (ErrorEvent MainVideo) = handleVideoError s"
| "step s (ErrorEvent MaskVideo) = handleMaskError s"
| "step s (Tick i) = tick i s"
| "step s CheckReadiness = checkReadiness s"
| "step s (PlayVideo r1 r2) = playVideo_call r1 r2 s"
| "step s (PlaySettled h) = playVideo_settle h s"
| "step s PauseVideo = pauseVideo s"
| "step s (SeekTo t) = seekTo t s"
| "step s (TogglePlayPause r1 r2) = togglePlayPause r1 r2 s"
| "step s (SeekToTime t) = seekToTime t s"

definition run :: "player \<Rightarrow> event list \<Rightarrow> player" where
  "run s es = foldl step s es"

text \<open>
  The state when the components mount: the hooks hold their initial values and no timer
  runs. The effect that installs \<open>checkReady\<close> calls it once, and the effect that installs
  the listeners calls \<open>handleVideoLoad\<close> when the content video has its metadata already
  (\<open>readyState >= 1\<close>). The arguments are the two elements and the identifier the window
  hands out next.
\<close>

definition mount :: "html_video option \<Rightarrow> html_video option \<Rightarrow> nat \<Rightarrow> player" where
  "mount v m n =
     (let s0 = checkReady
                 \<lparr>videoElement = v, maskElement = m, bothVideosReady = False,
                  syncIntervalRef = None, timers = [], nextTimerId = n,
                  isPlaying = False, playerError = None, loadingStatus = ''Loading...'',
                  videosReady = False, calls = [], pending = []\<rparr>
      in case (videoElement s0, maskElement s0) of
           (Some v', Some m') \<Rightarrow> if 1 \<le> readyState v' then handleVideoLoad s0 else s0
         | _ \<Rightarrow> s0)"

subsection \<open>The corrector's timer\<close>

text \<open>
  What the reference and the window's timers have in common in every state the components
  reach: the reference holds the one timer that runs \<open>syncVideos\<close>, or there is none; the
  identifiers are positive, and the next one is larger than the one in use.
\<close>

definition corrector_inv :: "player \<Rightarrow> bool" where
  "corrector_inv s =
     (0 < nextTimerId s \<and>
      (case syncIntervalRef s of
         None \<Rightarrow> timers s = []
       | Some i \<Rightarrow> timers s = [i] \<and> 0 < i \<and> i < nextTimerId s))"

text \<open>
  Whether an event calls \<open>playVideo\<close> in a state: directly, or through the toggle button
  when the pair is ready and not playing.
\<close>

definition calls_play :: "player \<Rightarrow> event \<Rightarrow> bool" where
  "calls_play s e =
     (case e of
        PlayVideo r1 r2 \<Rightarrow> True
      | TogglePlayPause r1 r2 \<Rightarrow> videosReady s \<and> \<not> isPlaying s
      | _ \<Rightarrow> False)"

fun no_play :: "player \<Rightarrow> event list \<Rightarrow> bool" where
  "no_play s [] = True"
| "no_play s (e # es) = (\<not> calls_play s e \<and> no_play (step s e) es)"

subsection \<open>Example elements, states and event sequences\<close>

text \<open>
  Two elements that have loaded nothing are mounted; both buffer one minute of video, the
  pair becomes ready and the poll sees it: \<open>ready_pair\<close>. Then the play button is pressed
  and both promises resolve: \<open>playing_pair\<close>. \<open>playing_at t1 t2\<close> is the pair while playing
  with the content video at \<open>t1\<close> and the mask video at \<open>t2\<close>; \<open>paused_pair\<close> is the pair
  paused by the button with both videos at 5 seconds.
\<close>

definition unloaded :: html_video where
  "unloaded = \<lparr>readyState = 0, currentTime = 0, duration = None, paused = True, error = None\<rparr>"

definition buffered :: "real \<Rightarrow> bool \<Rightarrow> html_video" where
  "buffered t p =
     \<lparr>readyState = 4, currentTime = t, duration = Some 60, paused = p, error = None\<rparr>"

definition failed :: html_video where
  "failed =
     \<lparr>readyState = 0, currentTime = 0, duration = None, paused = True,
      error = Some ''decode failed''\<rparr>"

definition idle_pair :: player where
  "idle_pair = mount (Some unloaded) (Some unloaded) 1"

definition become_ready :: "event list" where
  "become_ready =
     [Decoder MainVideo (buffered 0 True), Decoder MaskVideo (buffered 0 True),
      CanPlay, CheckReadiness]"

definition ready_pair :: player where
  "ready_pair = run idle_pair become_ready"

definition start_playing :: "event list" where
  "start_playing = become_ready @ [TogglePlayPause Resolved Resolved, PlaySettled MainVideo]"

definition playing_pair :: player where
  "playing_pair = run idle_pair start_playing"

definition playing_at :: "real \<Rightarrow> real \<Rightarrow> player" where
  "playing_at t1 t2 =
     run playing_pair [Decoder MainVideo (buffered t1 False), Decoder MaskVideo (buffered t2 False)]"

definition paused_pair :: player where
  "paused_pair = run (playing_at 5 5) [TogglePlayPause Resolved Resolved]"

text \<open>
  \<open>readiness_events\<close>: both videos buffer and the pair becomes ready; then the mask video fails
  (its decoder reports an error and it holds no data any more), its \<open>error\<close> event is
  delivered, \<open>canplay\<close> is checked again and the poll runs. \<open>after_pause\<close>: what may follow
  a pause without any call of \<open>playVideo\<close>. \<open>double_press\<close>: the play button is pressed
  twice before the promises of \<open>play()\<close> have settled, then they resolve. \<open>short_mask t\<close>:
  a mask video of 5 seconds at position \<open>t\<close>.
\<close>

definition readiness_events :: "event list" where
  "readiness_events =
     [Decoder MainVideo (buffered 0 True), Decoder MaskVideo (buffered 0 True), CanPlay,
      Decoder MaskVideo failed, ErrorEvent MaskVideo, CanPlay, CheckReadiness]"

definition double_press :: "event list" where
  "double_press =
     [TogglePlayPause Resolved Resolved, TogglePlayPause Resolved Resolved,
      PlaySettled MainVideo]"


definition after_pause :: "event list" where
  "after_pause =
     [Decoder MainVideo (buffered 10 True), Tick 1, SeekTo 3, Tick 1, PauseVideo, CanPlay,
      ErrorEvent MaskVideo, CheckReadiness, PlaySettled MainVideo,
      TogglePlayPause Resolved Resolved, Tick 1]"

section \<open>Properties\<close>

subsection \<open>Rounding and the threshold\<close>

lemma rhe_ge: "of_int N \<le> y \<Longrightarrow> N \<le> round_half_even y"
proof -
  assume "of_int N \<le> y"
  then have "N \<le> \<lfloor>y\<rfloor>" by (simp add: le_floor_iff)
  then show ?thesis by (simp add: round_half_even_def Let_def)
qed

lemma rhe_le: "y \<le> of_int N \<Longrightarrow> round_half_even y \<le> N"
proof (cases "y = of_int N")
  case True
  then show ?thesis by (simp add: round_half_even_def Let_def)
next
  case False
  assume "y \<le> of_int N"
  with False have "y < of_int N" by simp
  then have "\<lfloor>y\<rfloor> < N" by (simp add: floor_less_iff)
  then show ?thesis by (simp add: round_half_even_def Let_def)
qed

lemma rhe_gt_even:
  assumes "even M"
  shows "(M < round_half_even y) = (of_int M + 1 / 2 < y)"
proof (cases "\<lfloor>y\<rfloor> = M")
  case True
  then have "y - of_int \<lfloor>y\<rfloor> = y - of_int M" by simp
  then show ?thesis using True assms
    by (auto simp: round_half_even_def Let_def)
next
  case False
  show ?thesis
  proof (cases "\<lfloor>y\<rfloor> < M")
    case True
    then have a: "round_half_even y \<le> M" by (simp add: round_half_even_def Let_def)
    from True have "y < of_int M" by (simp add: floor_less_iff)
    then show ?thesis using a by simp
  next
    case False
    with \<open>\<lfloor>y\<rfloor> \<noteq> M\<close> have gt: "M + 1 \<le> \<lfloor>y\<rfloor>" by simp
    then have "M < round_half_even y" by (simp add: round_half_even_def Let_def)
    moreover from gt have "of_int (M + 1) \<le> y" by (simp add: le_floor_iff)
    then have "of_int M + 1 / 2 < y" by simp
    ultimately show ?thesis by simp
  qed
qed

lemma log2_bounds:
  assumes "0 < a"
  shows "2 powi \<lfloor>log 2 a\<rfloor> \<le> a \<and> a < 2 powi (\<lfloor>log 2 a\<rfloor> + 1)"
proof -
  have "(\<lfloor>log 2 a\<rfloor> = \<lfloor>log 2 a\<rfloor>) =
        (2 powr real_of_int \<lfloor>log 2 a\<rfloor> \<le> a \<and> a < 2 powr real_of_int (\<lfloor>log 2 a\<rfloor> + 1))"
    by (rule floor_log_eq_powr_iff) (use assms in simp_all)
  then have "2 powr real_of_int \<lfloor>log 2 a\<rfloor> \<le> a \<and> a < 2 powr real_of_int (\<lfloor>log 2 a\<rfloor> + 1)"
    by blast
  moreover have "(2::real) powr real_of_int \<lfloor>log 2 a\<rfloor> = 2 powi \<lfloor>log 2 a\<rfloor>"
    by (rule powr_real_of_int') simp_all
  moreover have "(2::real) powr real_of_int (\<lfloor>log 2 a\<rfloor> + 1) = 2 powi (\<lfloor>log 2 a\<rfloor> + 1)"
    by (rule powr_real_of_int') simp_all
  ultimately show ?thesis by simp
qed

lemma to_double_abs:
  "x \<noteq> 0 \<Longrightarrow> \<bar>to_double x\<bar> = of_int (round_half_even (\<bar>x\<bar> / ulp \<bar>x\<bar>)) * ulp \<bar>x\<bar>"
proof -
  assume nz: "x \<noteq> 0"
  have u: "0 < ulp \<bar>x\<bar>" by (simp add: ulp_def)
  then have "of_int 0 \<le> \<bar>x\<bar> / ulp \<bar>x\<bar>" by simp
  then have "0 \<le> round_half_even (\<bar>x\<bar> / ulp \<bar>x\<bar>)" by (rule rhe_ge)
  then show ?thesis using nz u by (simp add: to_double_def abs_mult)
qed

lemma powi_less_cancel:
  assumes "(2::real) powi m < 2 powi n"
  shows "m < n"
proof (rule ccontr)
  assume "\<not> m < n"
  then have "n \<le> m" by simp
  then have "(2::real) powi n \<le> 2 powi m" by (intro power_int_increasing) simp_all
  with assms show False by simp
qed

lemma SYNC_THRESHOLD_eq: "SYNC_THRESHOLD = 3602879701896397 / 36028797018963968"
proof -
  have "\<lfloor>log 2 (1 / 10 :: real)\<rfloor> = - 4"
    using floor_log_eq_powr_iff [of "1 / 10 :: real" 2 "- 4"] by (simp add: powr_minus)
  then have u: "ulp (1 / 10) = 1 / 2 ^ 56" by (simp add: ulp_def binade_def power_int_minus_divide)
  have q: "1 / 10 / ulp (1 / 10) = 36028797018963968 / 5" unfolding u by simp
  have "\<lfloor>36028797018963968 / 5 :: real\<rfloor> = 7205759403792793" by (simp add: floor_eq_iff)
  then have r: "round_half_even (36028797018963968 / 5) = 7205759403792794"
    by (simp add: round_half_even_def Let_def)
  have "to_double (1 / 10) = of_int (round_half_even (1 / 10 / ulp (1 / 10))) * ulp (1 / 10)"
    by (simp add: to_double_def)
  also have "\<dots> = of_int 7205759403792794 * ulp (1 / 10)" by (simp only: q r)
  also have "\<dots> = of_int 7205759403792794 * (1 / 2 ^ 56)" by (simp only: u)
  also have "\<dots> = 3602879701896397 / 36028797018963968" by simp
  finally show ?thesis by (simp add: SYNC_THRESHOLD_def)
qed

lemma small_drift:
  assumes "0 < a" and "a < 1 / 16"
  shows "of_int (round_half_even (a / ulp a)) * ulp a \<le> 1 / 16"
proof -
  let ?k = "\<lfloor>log 2 a\<rfloor>"
  let ?e = "binade a"
  from log2_bounds [OF assms(1)] have lo: "2 powi ?k \<le> a" and hi: "a < 2 powi (?k + 1)" by simp_all
  have "(2::real) powi ?k < 2 powi (- 4)" using lo assms(2) by simp
  then have k: "?k < - 4" by (rule powi_less_cancel)
  have e: "?k \<le> ?e" "?e \<le> - 5" using k by (simp_all add: binade_def)
  have "(2::real) powi (?k + 1) \<le> 2 powi (?e + 1)" using e(1) by (intro power_int_increasing) simp_all
  with hi have a: "a < 2 powi (?e + 1)" by simp
  have "(2::real) powi (53 + (?e - 52)) = 2 powi 53 * 2 powi (?e - 52)"
    by (rule power_int_add) simp
  moreover have "53 + (?e - 52) = ?e + 1" by simp
  ultimately have split: "(2::real) powi (?e + 1) = 2 powi 53 * 2 powi (?e - 52)"
    by (simp only:)
  have u: "0 < ulp a" "ulp a = 2 powi (?e - 52)" by (simp_all add: ulp_def)
  have "a / ulp a < 2 powi 53" using a split u by (simp add: pos_divide_less_eq)
  then have "a / ulp a \<le> of_int (2 ^ 53)" by simp
  then have "round_half_even (a / ulp a) \<le> 2 ^ 53" by (rule rhe_le)
  then have "of_int (round_half_even (a / ulp a)) \<le> (2::real) ^ 53"
    by (metis of_int_le_iff of_int_numeral of_int_power)
  then have "of_int (round_half_even (a / ulp a)) * ulp a \<le> 2 ^ 53 * ulp a"
    using u(1) by (simp add: mult_right_mono)
  also have "\<dots> = 2 powi (?e + 1)" using split u(2) by simp
  also have "\<dots> \<le> 2 powi (- 4)" using e(2) by (intro power_int_increasing) simp_all
  finally show ?thesis by simp
qed

lemma large_drift:
  assumes "1 / 8 \<le> a"
  shows "1 / 8 \<le> of_int (round_half_even (a / ulp a)) * ulp a"
proof -
  let ?k = "\<lfloor>log 2 a\<rfloor>"
  let ?e = "binade a"
  have pos: "0 < a" using assms by simp
  from log2_bounds [OF pos] have lo: "2 powi ?k \<le> a" and hi: "a < 2 powi (?k + 1)" by simp_all
  have "(2::real) powi (- 3) < 2 powi (?k + 1)" using hi assms by simp
  then have "- 3 < ?k + 1" by (rule powi_less_cancel)
  then have k: "- 3 \<le> ?k" by simp
  then have e: "?e = ?k" by (simp add: binade_def)
  have "(2::real) powi (52 + (?e - 52)) = 2 powi 52 * 2 powi (?e - 52)"
    by (rule power_int_add) simp
  moreover have "52 + (?e - 52) = ?e" by simp
  ultimately have split: "(2::real) powi ?e = 2 powi 52 * 2 powi (?e - 52)"
    by (simp only:)
  have u: "0 < ulp a" "ulp a = 2 powi (?e - 52)" by (simp_all add: ulp_def)
  have "2 powi 52 \<le> a / ulp a" using lo e split u by (simp add: pos_le_divide_eq)
  then have "of_int (2 ^ 52) \<le> a / ulp a" by simp
  then have "2 ^ 52 \<le> round_half_even (a / ulp a)" by (rule rhe_ge)
  then have "(2::real) ^ 52 \<le> of_int (round_half_even (a / ulp a))"
    by (metis of_int_le_iff of_int_numeral of_int_power)
  then have "2 ^ 52 * ulp a \<le> of_int (round_half_even (a / ulp a)) * ulp a"
    using u(1) by (simp add: mult_right_mono)
  moreover have "2 ^ 52 * ulp a = 2 powi ?e" using split u(2) by simp
  moreover have "(2::real) powi (- 3) \<le> 2 powi ?e" using k e by (intro power_int_increasing) simp_all
  ultimately show ?thesis by simp
qed

lemma middle_drift:
  assumes "1 / 16 \<le> a" and "a < 1 / 8"
  shows "(SYNC_THRESHOLD < of_int (round_half_even (a / ulp a)) * ulp a) =
         (14411518807585589 / 144115188075855872 < a)"
proof -
  have pos: "0 < a" using assms by simp
  have "\<lfloor>log 2 a\<rfloor> = - 4"
    using floor_log_eq_powr_iff [of a 2 "- 4"] pos assms by (simp add: powr_minus)
  then have u: "ulp a = 1 / 2 ^ 56" by (simp add: ulp_def binade_def power_int_minus_divide)
  have "(SYNC_THRESHOLD < of_int (round_half_even (a / ulp a)) * ulp a) =
        (7205759403792794 < round_half_even (a * 2 ^ 56))"
    unfolding u SYNC_THRESHOLD_eq by (simp add: field_simps)
  also have "\<dots> = (of_int 7205759403792794 + 1 / 2 < a * 2 ^ 56)"
    by (rule rhe_gt_even) simp
  also have "\<dots> = (14411518807585589 / 144115188075855872 < a)"
    by (simp add: field_simps)
  finally show ?thesis .
qed

lemma drift_exceeds_iff:
  "(SYNC_THRESHOLD < \<bar>to_double d\<bar>) = (14411518807585589 / 144115188075855872 < \<bar>d\<bar>)"
proof (cases "d = 0")
  case True
  then show ?thesis by (simp add: to_double_def SYNC_THRESHOLD_eq)
next
  case False
  then have pos: "0 < \<bar>d\<bar>" by simp
  note mag = to_double_abs [OF False]
  consider "\<bar>d\<bar> < 1 / 16" | "1 / 16 \<le> \<bar>d\<bar>" "\<bar>d\<bar> < 1 / 8" | "1 / 8 \<le> \<bar>d\<bar>" by linarith
  then show ?thesis
  proof cases
    case 1
    from small_drift [OF pos 1] have "\<bar>to_double d\<bar> \<le> 1 / 16" by (simp add: mag)
    then show ?thesis using 1 by (simp add: SYNC_THRESHOLD_eq)
  next
    case 2
    from middle_drift [OF 2] show ?thesis by (simp add: mag)
  next
    case 3
    from large_drift [OF 3] have "1 / 8 \<le> \<bar>to_double d\<bar>" by (simp add: mag)
    then show ?thesis using 3 by (simp add: SYNC_THRESHOLD_eq)
  qed
qed

lemma set_currentTime_zero: "set_currentTime 0 el = el\<lparr>currentTime := 0\<rparr>"
  by (simp add: set_currentTime_def split: option.splits)

lemma set_currentTime_within:
  "duration el = Some d \<Longrightarrow> 0 \<le> t \<Longrightarrow> t \<le> d \<Longrightarrow> set_currentTime t el = el\<lparr>currentTime := t\<rparr>"
  by (simp add: set_currentTime_def)

subsection \<open>Event sequences\<close>

lemma run_Nil [simp]: "run s [] = s"
  by (simp add: run_def)

lemma run_Cons [simp]: "run s (e # es) = run (step s e) es"
  by (simp add: run_def)

lemma run_append: "run s (es @ es') = run (run s es) es'"
  by (simp add: run_def)

subsection \<open>The timer invariant holds in every reachable state\<close>

lemma inv_clearInterval:
  "corrector_inv s \<Longrightarrow> syncIntervalRef s = Some i \<Longrightarrow>
   corrector_inv ((clearInterval i s)\<lparr>syncIntervalRef := None\<rparr>)"
  by (simp add: corrector_inv_def clearInterval_def)

lemma inv_stop: "corrector_inv s \<Longrightarrow> corrector_inv (stopSyncMonitoring s)"
  by (auto simp: corrector_inv_def stopSyncMonitoring_def clearInterval_def split: option.splits)

lemma inv_start: "corrector_inv s \<Longrightarrow> corrector_inv (startSyncMonitoring s)"
  by (auto simp: corrector_inv_def startSyncMonitoring_def clearInterval_def setInterval_def
      split: option.splits)

lemma inv_frame:
  "syncIntervalRef s' = syncIntervalRef s \<Longrightarrow> timers s' = timers s \<Longrightarrow>
   nextTimerId s' = nextTimerId s \<Longrightarrow> corrector_inv s' = corrector_inv s"
  by (simp add: corrector_inv_def split: option.splits)

lemma inv_checkReady: "corrector_inv (checkReady s) = corrector_inv s"
  by (rule inv_frame) (simp_all add: checkReady_def Let_def split: option.splits)

lemma inv_syncVideos: "corrector_inv (syncVideos s) = corrector_inv s"
  by (rule inv_frame) (simp_all add: syncVideos_def Let_def split: option.splits)

lemma inv_onVideoError: "corrector_inv (onVideoError e s) = corrector_inv s"
  by (rule inv_frame) (simp_all add: onVideoError_def)

lemma inv_handleVideoLoad: "corrector_inv (handleVideoLoad s) = corrector_inv s"
  by (rule inv_frame) (simp_all add: handleVideoLoad_def onVideoLoad_def split: option.splits)

lemma inv_handleVideoError: "corrector_inv (handleVideoError s) = corrector_inv s"
  by (rule inv_frame) (simp_all add: handleVideoError_def onVideoError_def split: option.splits)

lemma inv_handleMaskError: "corrector_inv (handleMaskError s) = corrector_inv s"
  by (rule inv_frame) (simp_all add: handleMaskError_def onVideoError_def split: option.splits)

lemma inv_decoder: "corrector_inv (decoder h el s) = corrector_inv s"
  by (rule inv_frame) (simp_all add: decoder_def split: handle.splits)

lemma inv_checkReadiness: "corrector_inv (checkReadiness s) = corrector_inv s"
  by (rule inv_frame) (simp_all add: checkReadiness_def Let_def)

lemma inv_seekTo: "corrector_inv (seekTo t s) = corrector_inv s"
  by (rule inv_frame) (simp_all add: seekTo_def split: option.splits)

lemma inv_tick: "corrector_inv (tick i s) = corrector_inv s"
  by (simp add: tick_def inv_syncVideos)

lemma inv_pauseVideo: "corrector_inv s \<Longrightarrow> corrector_inv (pauseVideo s)"
proof (cases "videoElement s")
  case None
  then show "corrector_inv s \<Longrightarrow> corrector_inv (pauseVideo s)" by (simp add: pauseVideo_def)
next
  case (Some v)
  assume inv: "corrector_inv s"
  show "corrector_inv (pauseVideo s)"
  proof (cases "maskElement s")
    case None
    with Some inv show ?thesis by (simp add: pauseVideo_def)
  next
    case (Some m)
    have "corrector_inv (stopSyncMonitoring s)" using inv by (rule inv_stop)
    then show ?thesis using \<open>videoElement s = Some v\<close> Some
      by (simp add: pauseVideo_def Let_def corrector_inv_def split: option.splits)
  qed
qed

lemma inv_playVideo_body:
  "corrector_inv s \<Longrightarrow> playVideo_body r1 r2 s = Some s1 \<Longrightarrow> corrector_inv s1"
  by (auto simp: playVideo_body_def corrector_inv_def split: option.splits if_splits)

lemma inv_playVideo_rest: "corrector_inv s \<Longrightarrow> corrector_inv (playVideo_rest h r1 r2 s)"
  by (simp add: playVideo_rest_def inv_onVideoError inv_start split: option.splits)

lemma inv_pending: "corrector_inv (s\<lparr>pending := ps\<rparr>) = corrector_inv s"
  by (rule inv_frame) simp_all

lemma inv_playVideo_call: "corrector_inv s \<Longrightarrow> corrector_inv (playVideo_call r1 r2 s)"
  by (auto simp: playVideo_call_def inv_pending dest: inv_playVideo_body split: option.splits)

lemma inv_playVideo_settle: "corrector_inv s \<Longrightarrow> corrector_inv (playVideo_settle h s)"
  by (simp add: playVideo_settle_def inv_playVideo_rest inv_pending split: list.splits)

lemma inv_toggle: "corrector_inv s \<Longrightarrow> corrector_inv (togglePlayPause r1 r2 s)"
proof -
  assume inv: "corrector_inv s"
  have frame: "\<And>s' b. corrector_inv s' \<Longrightarrow> corrector_inv (s'\<lparr>isPlaying := b\<rparr>)"
    by (simp add: corrector_inv_def split: option.splits)
  show ?thesis using inv
    by (simp add: togglePlayPause_def Let_def frame inv_pauseVideo inv_playVideo_call)
qed

lemma inv_step: "corrector_inv s \<Longrightarrow> corrector_inv (step s e)"
proof (cases e)
  case (ErrorEvent h)
  assume "corrector_inv s"
  then show ?thesis using ErrorEvent
    by (cases h) (simp_all add: inv_handleVideoError inv_handleMaskError)
qed (simp_all add: inv_decoder inv_checkReady inv_handleVideoLoad inv_tick inv_checkReadiness
      inv_playVideo_call inv_playVideo_settle inv_pauseVideo inv_seekTo inv_toggle seekToTime_def)

lemma inv_run: "corrector_inv s \<Longrightarrow> corrector_inv (run s es)"
  by (induction es arbitrary: s) (simp_all add: inv_step)

lemma inv_mount: "0 < n \<Longrightarrow> corrector_inv (mount v m n)"
proof -
  assume n: "0 < n"
  let ?s0 = "\<lparr>videoElement = v, maskElement = m, bothVideosReady = False,
              syncIntervalRef = None, timers = [], nextTimerId = n,
              isPlaying = False, playerError = None, loadingStatus = ''Loading...'',
              videosReady = False, calls = [], pending = []\<rparr>"
  have "corrector_inv ?s0" using n by (simp add: corrector_inv_def)
  then have "corrector_inv (checkReady ?s0)" by (simp add: inv_checkReady)
  then show ?thesis
    by (simp add: mount_def Let_def inv_handleVideoLoad split: option.splits)
qed

subsection \<open>The example states, evaluated\<close>

lemmas callback_defs = checkReady_def syncVideos_def clearInterval_def setInterval_def
  startSyncMonitoring_def stopSyncMonitoring_def onVideoLoad_def onVideoError_def errorMessage_def
  handleVideoLoad_def handleVideoError_def handleMaskError_def play_def pause_def
  playVideo_body_def rejection_def playVideo_rest_def playVideo_call_def playVideo_settle_def
  playVideo_def pauseVideo_def seekTo_def checkReadiness_def togglePlayPause_def seekToTime_def
  decoder_def tick_def set_currentTime_def minus_double_def drift_exceeds_iff

lemma idle_pair_eq:
  "idle_pair =
     \<lparr>videoElement = Some unloaded, maskElement = Some unloaded, bothVideosReady = False,
      syncIntervalRef = None, timers = [], nextTimerId = 1,
      isPlaying = False, playerError = None, loadingStatus = ''Loading...'',
      videosReady = False, calls = [], pending = []\<rparr>"
  by (simp add: idle_pair_def mount_def checkReady_def unloaded_def)

lemma ready_pair_eq:
  "ready_pair =
     \<lparr>videoElement = Some (buffered 0 True), maskElement = Some (buffered 0 True),
      bothVideosReady = True, syncIntervalRef = None, timers = [], nextTimerId = 1,
      isPlaying = False, playerError = None, loadingStatus = ''Videos synchronized and ready'',
      videosReady = True, calls = [], pending = []\<rparr>"
  by (simp add: ready_pair_def become_ready_def idle_pair_eq callback_defs buffered_def)

lemma playing_pair_eq:
  "playing_pair =
     \<lparr>videoElement = Some (buffered 0 False), maskElement = Some (buffered 0 False),
      bothVideosReady = True, syncIntervalRef = Some 1, timers = [1], nextTimerId = 2,
      isPlaying = True, playerError = None, loadingStatus = ''Videos synchronized and ready'',
      videosReady = True,
      calls = [SetCurrentTime MainVideo 0, SetCurrentTime MaskVideo 0,
               Play MainVideo, Play MaskVideo, SetInterval 1],
      pending = []\<rparr>"
proof -
  have a: "playing_pair = run ready_pair [TogglePlayPause Resolved Resolved, PlaySettled MainVideo]"
    by (simp add: playing_pair_def start_playing_def ready_pair_def run_append)
  have b: "run ready_pair [TogglePlayPause Resolved Resolved, PlaySettled MainVideo] =
     \<lparr>videoElement = Some (buffered 0 False), maskElement = Some (buffered 0 False),
      bothVideosReady = True, syncIntervalRef = Some 1, timers = [1], nextTimerId = 2,
      isPlaying = True, playerError = None, loadingStatus = ''Videos synchronized and ready'',
      videosReady = True,
      calls = [SetCurrentTime MainVideo 0, SetCurrentTime MaskVideo 0,
               Play MainVideo, Play MaskVideo, SetInterval 1],
      pending = []\<rparr>"
    by (simp add: ready_pair_eq callback_defs buffered_def)
  from a b show ?thesis by (rule trans)
qed

lemma playing_at_eq:
  "playing_at t1 t2 =
     playing_pair\<lparr>videoElement := Some (buffered t1 False), maskElement := Some (buffered t2 False)\<rparr>"
  by (simp add: playing_at_def playing_pair_eq decoder_def)

lemma paused_pair_eq:
  "paused_pair =
     \<lparr>videoElement = Some (buffered 5 True), maskElement = Some (buffered 5 True),
      bothVideosReady = True, syncIntervalRef = None, timers = [], nextTimerId = 2,
      isPlaying = False, playerError = None, loadingStatus = ''Videos synchronized and ready'',
      videosReady = True,
      calls = [SetCurrentTime MainVideo 0, SetCurrentTime MaskVideo 0,
               Play MainVideo, Play MaskVideo, SetInterval 1, ClearInterval 1,
               Pause MainVideo, Pause MaskVideo],
      pending = []\<rparr>"
  by (simp add: paused_pair_def playing_at_eq playing_pair_eq callback_defs buffered_def)


subsection \<open>A call of \<open>playVideo\<close> and its rest\<close>

text \<open>
  When no earlier call is pending, a call of \<open>playVideo\<close> followed at once by its rest is
  \<open>playVideo\<close> run from its first line to its last.
\<close>

lemma playVideo_call_settle:
  assumes "pending s = []"
  shows "playVideo_settle MainVideo (playVideo_call r1 r2 s) = playVideo r1 r2 s"
proof (cases "playVideo_body r1 r2 s")
  case None
  then show ?thesis using assms by (simp add: playVideo_call_def playVideo_settle_def playVideo_def)
next
  case (Some s1)
  then have "pending s1 = []" using assms
    by (auto simp: playVideo_body_def Let_def split: option.splits if_splits)
  then have eq: "s1\<lparr>pending := []\<rparr> = s1" by simp
  have "playVideo_settle MainVideo (playVideo_call r1 r2 s) =
        playVideo_rest MainVideo r1 r2 (s1\<lparr>pending := []\<rparr>)"
    using Some \<open>pending s1 = []\<close> by (simp add: playVideo_call_def playVideo_settle_def)
  also have "\<dots> = playVideo_rest MainVideo r1 r2 s1" by (simp only: eq)
  also have "\<dots> = playVideo r1 r2 s" using Some by (simp add: playVideo_def)
  finally show ?thesis .
qed

subsection \<open>The elements stay in place\<close>

lemma present_start:
  "videoElement (startSyncMonitoring s) = videoElement s \<and>
   maskElement (startSyncMonitoring s) = maskElement s"
  by (simp add: startSyncMonitoring_def clearInterval_def setInterval_def split: option.splits)

lemma present_stop:
  "videoElement (stopSyncMonitoring s) = videoElement s \<and>
   maskElement (stopSyncMonitoring s) = maskElement s"
  by (simp add: stopSyncMonitoring_def clearInterval_def split: option.splits)

lemma present_rest:
  "videoElement (playVideo_rest h r1 r2 s) = videoElement s \<and>
   maskElement (playVideo_rest h r1 r2 s) = maskElement s"
  by (simp add: playVideo_rest_def present_start onVideoError_def split: option.splits)

lemma present_call:
  "videoElement s \<noteq> None \<and> maskElement s \<noteq> None \<Longrightarrow>
   videoElement (playVideo_call r1 r2 s) \<noteq> None \<and> maskElement (playVideo_call r1 r2 s) \<noteq> None"
  by (auto simp: playVideo_call_def playVideo_body_def Let_def split: option.splits if_splits)

lemma present_settle:
  "videoElement (playVideo_settle h s) = videoElement s \<and>
   maskElement (playVideo_settle h s) = maskElement s"
  by (simp add: playVideo_settle_def present_rest split: list.splits)

lemma present_pauseVideo:
  "videoElement s \<noteq> None \<and> maskElement s \<noteq> None \<Longrightarrow>
   videoElement (pauseVideo s) \<noteq> None \<and> maskElement (pauseVideo s) \<noteq> None"
  by (auto simp: pauseVideo_def Let_def)

lemma present_step:
  "videoElement s \<noteq> None \<and> maskElement s \<noteq> None \<Longrightarrow>
   videoElement (step s e) \<noteq> None \<and> maskElement (step s e) \<noteq> None"
proof (cases e)
  case (ErrorEvent h)
  assume "videoElement s \<noteq> None \<and> maskElement s \<noteq> None"
  then show ?thesis using ErrorEvent
    by (cases h) (auto simp: handleVideoError_def handleMaskError_def onVideoError_def)
next
  case (Decoder h el)
  assume "videoElement s \<noteq> None \<and> maskElement s \<noteq> None"
  then show ?thesis using Decoder by (cases h) (auto simp: decoder_def)
next
  case (PlayVideo r1 r2)
  assume "videoElement s \<noteq> None \<and> maskElement s \<noteq> None"
  then show ?thesis using PlayVideo by (simp add: present_call)
next
  case (PlaySettled h)
  assume "videoElement s \<noteq> None \<and> maskElement s \<noteq> None"
  then show ?thesis using PlaySettled by (simp add: present_settle)
next
  case PauseVideo
  assume "videoElement s \<noteq> None \<and> maskElement s \<noteq> None"
  then show ?thesis using PauseVideo by (simp add: present_pauseVideo)
next
  case (TogglePlayPause r1 r2)
  assume el: "videoElement s \<noteq> None \<and> maskElement s \<noteq> None"
  from el present_pauseVideo [OF el] present_call [OF el, of r1 r2] show ?thesis
    using TogglePlayPause by (simp add: togglePlayPause_def Let_def)
qed (auto simp: checkReady_def handleVideoLoad_def onVideoLoad_def tick_def syncVideos_def
      checkReadiness_def seekTo_def seekToTime_def Let_def)

lemma present_run:
  "videoElement s \<noteq> None \<and> maskElement s \<noteq> None \<Longrightarrow>
   videoElement (run s es) \<noteq> None \<and> maskElement (run s es) \<noteq> None"
proof (induction es arbitrary: s)
  case Nil
  then show ?case by simp
next
  case (Cons e es)
  from Cons.prems have "videoElement (step s e) \<noteq> None \<and> maskElement (step s e) \<noteq> None"
    by (rule present_step)
  then show ?case using Cons.IH by simp
qed

lemma present_mount:
  "videoElement (mount (Some v) (Some m) n) \<noteq> None \<and> maskElement (mount (Some v) (Some m) n) \<noteq> None"
  by (simp add: mount_def checkReady_def handleVideoLoad_def onVideoLoad_def Let_def)

subsection \<open>With no call of \<open>playVideo\<close> made or pending, a stopped corrector stays stopped\<close>

lemma inv_no_timer: "corrector_inv s \<Longrightarrow> timers s = [] \<Longrightarrow> syncIntervalRef s = None"
  by (cases "syncIntervalRef s") (simp_all add: corrector_inv_def)

lemma stop_idle: "syncIntervalRef s = None \<Longrightarrow> stopSyncMonitoring s = s"
  by (simp add: stopSyncMonitoring_def)

lemma pauseVideo_idle:
  "syncIntervalRef s = None \<Longrightarrow>
   timers (pauseVideo s) = timers s \<and> pending (pauseVideo s) = pending s"
  by (simp add: pauseVideo_def Let_def stop_idle split: option.splits)

lemma quiet_step:
  assumes "corrector_inv s" and "timers s = []" and "pending s = []" and "\<not> calls_play s e"
  shows "timers (step s e) = [] \<and> pending (step s e) = []"
proof -
  have ref: "syncIntervalRef s = None" using assms(1,2) by (rule inv_no_timer)
  show ?thesis
  proof (cases e)
    case (Decoder h el)
    then show ?thesis using assms(2,3) by (cases h) (simp_all add: decoder_def)
  next
    case (ErrorEvent h)
    then show ?thesis using assms(2,3)
      by (cases h) (simp_all add: handleVideoError_def handleMaskError_def onVideoError_def
          split: option.splits)
  next
    case (PlayVideo r1 r2)
    then show ?thesis using assms(4) by (simp add: calls_play_def)
  next
    case (PlaySettled h)
    then show ?thesis using assms(2,3) by (simp add: playVideo_settle_def)
  next
    case PauseVideo
    then show ?thesis using assms(2,3) ref by (simp add: pauseVideo_idle)
  next
    case (TogglePlayPause r1 r2)
    then have "\<not> videosReady s \<or> isPlaying s" using assms(4) by (simp add: calls_play_def)
    then show ?thesis using TogglePlayPause assms(2,3) ref
      by (auto simp: togglePlayPause_def pauseVideo_idle)
  qed (use assms(2,3) in \<open>simp_all add: checkReady_def handleVideoLoad_def onVideoLoad_def tick_def
        checkReadiness_def seekTo_def seekToTime_def Let_def split: option.splits\<close>)
qed

lemma quiet_run:
  "corrector_inv s \<Longrightarrow> timers s = [] \<Longrightarrow> pending s = [] \<Longrightarrow> no_play s es \<Longrightarrow>
   timers (run s es) = []"
proof (induction es arbitrary: s)
  case Nil
  then show ?case by simp
next
  case (Cons e es)
  from Cons.prems have a: "corrector_inv (step s e)" by (simp add: inv_step)
  from Cons.prems have b: "timers (step s e) = []" "pending (step s e) = []"
    by (simp_all add: quiet_step)
  from Cons.prems have c: "no_play (step s e) es" by simp
  from Cons.IH [OF a b c] show ?case by simp
qed

lemma pauseVideo_disarms:
  assumes "corrector_inv s" and "videoElement s = Some v" and "maskElement s = Some m"
  shows "syncIntervalRef (pauseVideo s) = None \<and> timers (pauseVideo s) = [] \<and>
         pending (pauseVideo s) = pending s \<and>
         calls (pauseVideo s) =
           calls s @ (case syncIntervalRef s of None \<Rightarrow> [] | Some j \<Rightarrow> [ClearInterval j]) @
           [Pause MainVideo, Pause MaskVideo]"
  using assms
  by (auto simp: pauseVideo_def Let_def stopSyncMonitoring_def clearInterval_def corrector_inv_def
      split: option.splits)

text \<open>
  What holds of \<open>pauseVideo\<close> when no call of \<open>playVideo\<close> is waiting at its \<open>await\<close>: in a
  state reached from a mount with both elements, the timer is cleared before the two
  videos are paused, and along any sequence of events without a call of \<open>playVideo\<close> no
  timer exists and a tick changes nothing.
\<close>

lemma pauseVideo_quiet_when_nothing_pending:
  assumes "0 < n" and "s = run (mount (Some v) (Some m) n) es0" and "pending s = []"
    and "no_play (pauseVideo s) es"
  shows "calls (pauseVideo s) =
           calls s @ (case syncIntervalRef s of None \<Rightarrow> [] | Some j \<Rightarrow> [ClearInterval j]) @
           [Pause MainVideo, Pause MaskVideo] \<and>
         syncIntervalRef (pauseVideo s) = None \<and>
         timers (pauseVideo s) = [] \<and>
         timers (run (pauseVideo s) es) = [] \<and>
         step (run (pauseVideo s) es) (Tick i) = run (pauseVideo s) es"
proof -
  have inv: "corrector_inv s" using assms(1,2) by (simp add: inv_run inv_mount)
  have "videoElement s \<noteq> None \<and> maskElement s \<noteq> None"
    unfolding assms(2) by (rule present_run) (rule present_mount)
  then obtain v' m' where el: "videoElement s = Some v'" "maskElement s = Some m'" by auto
  note off = pauseVideo_disarms [OF inv el]
  have inv': "corrector_inv (pauseVideo s)" using inv by (rule inv_pauseVideo)
  have quiet: "timers (run (pauseVideo s) es) = []"
    using inv' off assms(3,4) by (simp add: quiet_run)
  then have "step (run (pauseVideo s) es) (Tick i) = run (pauseVideo s) es"
    by (simp add: tick_def)
  with off quiet show ?thesis by simp
qed

lemma pauseVideo_quiet_example:
  "timers (run (pauseVideo playing_pair) after_pause) = [] \<and>
   step (run (pauseVideo playing_pair) after_pause) (Tick 1) =
     run (pauseVideo playing_pair) after_pause"
proof -
  have h1: "0 < (1::nat)" by simp
  have h2: "playing_pair = run (mount (Some unloaded) (Some unloaded) 1) start_playing"
    by (simp add: playing_pair_def idle_pair_def)
  have h3: "pending playing_pair = []" by (simp add: playing_pair_eq)
  have h4: "no_play (pauseVideo playing_pair) after_pause"
    by (simp add: after_pause_def playing_pair_eq callback_defs calls_play_def buffered_def)
  from pauseVideo_quiet_when_nothing_pending [OF h1 h2 h3 h4, of 1] show ?thesis by simp
qed

subsection \<open>The readiness flag is never reset\<close>

lemma ready_checkReady: "bothVideosReady s \<Longrightarrow> bothVideosReady (checkReady s)"
  by (simp add: checkReady_def Let_def split: option.splits)

lemma ready_syncVideos: "bothVideosReady (syncVideos s) = bothVideosReady s"
  by (simp add: syncVideos_def Let_def split: option.splits)

lemma ready_stop: "bothVideosReady (stopSyncMonitoring s) = bothVideosReady s"
  by (simp add: stopSyncMonitoring_def clearInterval_def split: option.splits)

lemma ready_start: "bothVideosReady (startSyncMonitoring s) = bothVideosReady s"
  by (simp add: startSyncMonitoring_def clearInterval_def setInterval_def split: option.splits)

lemma ready_rest: "bothVideosReady (playVideo_rest h r1 r2 s) = bothVideosReady s"
  by (simp add: playVideo_rest_def ready_start onVideoError_def split: option.splits)

lemma ready_call: "bothVideosReady (playVideo_call r1 r2 s) = bothVideosReady s"
  by (auto simp: playVideo_call_def playVideo_body_def Let_def split: option.splits if_splits)

lemma ready_settle: "bothVideosReady (playVideo_settle h s) = bothVideosReady s"
  by (simp add: playVideo_settle_def ready_rest split: list.splits)

lemma ready_pauseVideo: "bothVideosReady (pauseVideo s) = bothVideosReady s"
  by (simp add: pauseVideo_def Let_def ready_stop split: option.splits)

lemma ready_seekTo: "bothVideosReady (seekTo t s) = bothVideosReady s"
  by (simp add: seekTo_def split: option.splits)

lemma ready_step: "bothVideosReady s \<Longrightarrow> bothVideosReady (step s e)"
proof (cases e)
  case (ErrorEvent h)
  assume "bothVideosReady s"
  then show ?thesis using ErrorEvent
    by (cases h) (simp_all add: handleVideoError_def handleMaskError_def onVideoError_def
        split: option.splits)
next
  case (Decoder h el)
  assume "bothVideosReady s"
  then show ?thesis using Decoder by (cases h) (simp_all add: decoder_def)
qed (simp_all add: ready_checkReady handleVideoLoad_def onVideoLoad_def tick_def ready_syncVideos
      checkReadiness_def ready_call ready_settle ready_pauseVideo ready_seekTo togglePlayPause_def
      seekToTime_def Let_def split: option.splits)

lemma ready_run: "bothVideosReady s \<Longrightarrow> bothVideosReady (run s es)"
  by (induction es arbitrary: s) (simp_all add: ready_step)

subsection \<open>The drift corrector\<close>

text \<open>
  Claim C7. A tick of the drift corrector never writes the position of the primary (content)
  video: in every state and for every timer, the content element after the tick is the
  content element before it, and the requests the tick adds to the trace contain no
  \<open>currentTime\<close> assignment on the content video. Only the mask video is corrected.
\<close>

theorem tick_never_writes_primary:
  "videoElement (step s (Tick i)) = videoElement s \<and>
   (\<forall>t. SetCurrentTime MainVideo t \<notin> set (drop (length (calls s)) (calls (step s (Tick i)))))"
  by (simp add: tick_def syncVideos_def Let_def split: option.splits)

theorem tick_never_writes_primary_witness:
  "videoElement (step (playing_at 10 9.8) (Tick 1)) = Some (buffered 10 False) \<and>
   maskElement (step (playing_at 10 9.8) (Tick 1)) = Some (buffered 10 False)"
  using tick_never_writes_primary [of "playing_at 10 9.8" 1]
  by (simp add: playing_at_eq playing_pair_eq callback_defs buffered_def)




text \<open>
  Claim C9, as stated, fails: a second start is not a no-op. From the mounted pair the
  first start stores timer 1; the second start clears timer 1 and stores timer 2, so the
  state after the second start differs from the state after the first.
\<close>

theorem start_twice_counterexample:
  "syncIntervalRef (startSyncMonitoring idle_pair) = Some 1 \<and>
   syncIntervalRef (startSyncMonitoring (startSyncMonitoring idle_pair)) = Some 2 \<and>
   calls (startSyncMonitoring idle_pair) = [SetInterval 1] \<and>
   calls (startSyncMonitoring (startSyncMonitoring idle_pair)) =
     [SetInterval 1, ClearInterval 1, SetInterval 2] \<and>
   startSyncMonitoring (startSyncMonitoring idle_pair) \<noteq> startSyncMonitoring idle_pair"
proof -
  have a: "syncIntervalRef (startSyncMonitoring idle_pair) = Some 1"
    by (simp add: idle_pair_eq startSyncMonitoring_def setInterval_def)
  have b: "syncIntervalRef (startSyncMonitoring (startSyncMonitoring idle_pair)) = Some 2"
    by (simp add: idle_pair_eq startSyncMonitoring_def setInterval_def clearInterval_def)
  have c: "calls (startSyncMonitoring idle_pair) = [SetInterval 1]"
    by (simp add: idle_pair_eq startSyncMonitoring_def setInterval_def)
  have d: "calls (startSyncMonitoring (startSyncMonitoring idle_pair)) =
     [SetInterval 1, ClearInterval 1, SetInterval 2]"
    by (simp add: idle_pair_eq startSyncMonitoring_def setInterval_def clearInterval_def)
  have "startSyncMonitoring (startSyncMonitoring idle_pair) \<noteq> startSyncMonitoring idle_pair"
    using a b by auto
  with a b c d show ?thesis by simp
qed

text \<open>
  Claim C9, amended. In every state that satisfies the timer invariant, starting the
  corrector leaves exactly one timer, the one the reference holds; starting it again
  without a stop clears that timer and registers a fresh one, so there is still exactly
  one timer and never a duplicate, but it is a new timer and not the old one. Stopping
  the corrector twice gives the same state as stopping it once.
\<close>

theorem start_twice_one_fresh_timer_stop_twice_noop:
  assumes "corrector_inv s"
  shows "timers (startSyncMonitoring s) = [nextTimerId s] \<and>
         syncIntervalRef (startSyncMonitoring s) = Some (nextTimerId s) \<and>
         timers (startSyncMonitoring (startSyncMonitoring s)) = [Suc (nextTimerId s)] \<and>
         syncIntervalRef (startSyncMonitoring (startSyncMonitoring s)) = Some (Suc (nextTimerId s)) \<and>
         calls (startSyncMonitoring (startSyncMonitoring s)) =
           calls (startSyncMonitoring s) @
           [ClearInterval (nextTimerId s), SetInterval (Suc (nextTimerId s))] \<and>
         stopSyncMonitoring (stopSyncMonitoring s) = stopSyncMonitoring s"
proof -
  have first: "timers (startSyncMonitoring s) = [nextTimerId s] \<and>
         syncIntervalRef (startSyncMonitoring s) = Some (nextTimerId s) \<and>
         nextTimerId (startSyncMonitoring s) = Suc (nextTimerId s)"
    using assms
    by (auto simp: corrector_inv_def startSyncMonitoring_def setInterval_def clearInterval_def
        split: option.splits)
  have pos: "nextTimerId s \<noteq> 0" using assms by (simp add: corrector_inv_def)
  have second: "timers (startSyncMonitoring (startSyncMonitoring s)) = [Suc (nextTimerId s)] \<and>
         syncIntervalRef (startSyncMonitoring (startSyncMonitoring s)) = Some (Suc (nextTimerId s)) \<and>
         calls (startSyncMonitoring (startSyncMonitoring s)) =
           calls (startSyncMonitoring s) @
           [ClearInterval (nextTimerId s), SetInterval (Suc (nextTimerId s))]"
    using first pos
    by (simp add: startSyncMonitoring_def [of "startSyncMonitoring s"] setInterval_def
        clearInterval_def)
  have stop: "stopSyncMonitoring (stopSyncMonitoring s) = stopSyncMonitoring s"
    by (simp add: stopSyncMonitoring_def clearInterval_def split: option.splits)
  from first second stop show ?thesis by simp
qed

theorem start_twice_one_fresh_timer_stop_twice_noop_witness:
  "corrector_inv idle_pair \<and>
   timers (startSyncMonitoring idle_pair) = [1] \<and>
   timers (startSyncMonitoring (startSyncMonitoring idle_pair)) = [2] \<and>
   stopSyncMonitoring (stopSyncMonitoring idle_pair) = stopSyncMonitoring idle_pair"
proof -
  have h: "corrector_inv idle_pair" by (simp add: idle_pair_eq corrector_inv_def)
  have n: "nextTimerId idle_pair = 1" by (simp add: idle_pair_eq)
  from start_twice_one_fresh_timer_stop_twice_noop [OF h] h n show ?thesis by simp
qed

subsection \<open>The readiness flag\<close>

text \<open>
  Claim C10. Once \<open>bothVideosReady\<close> is true it stays true: if the flag is set after a
  sequence of events, it is set after every continuation of that sequence, whatever the
  decoder does to the elements (a lower \<open>readyState\<close>, an error) and whatever is called.
\<close>

theorem bothVideosReady_latches:
  "bothVideosReady (run s es) \<Longrightarrow> bothVideosReady (run s (es @ es'))"
  by (simp add: run_append ready_run)

theorem bothVideosReady_latches_witness:
  "bothVideosReady (run idle_pair [Decoder MainVideo (buffered 0 True),
      Decoder MaskVideo (buffered 0 True), CanPlay]) \<and>
   bothVideosReady (run idle_pair ([Decoder MainVideo (buffered 0 True),
      Decoder MaskVideo (buffered 0 True), CanPlay] @
      [Decoder MainVideo unloaded, Decoder MaskVideo failed, ErrorEvent MaskVideo, CanPlay]))"
proof -
  have h: "bothVideosReady (run idle_pair [Decoder MainVideo (buffered 0 True),
      Decoder MaskVideo (buffered 0 True), CanPlay])"
    by (simp add: idle_pair_eq decoder_def checkReady_def buffered_def)
  from h bothVideosReady_latches [OF h] show ?thesis by blast
qed

text \<open>
  Claim C2, as stated, fails: an error does not take the pair out of Ready. After
  \<open>readiness_events\<close> the mask video holds no data and carries an error, its \<open>error\<close> event
  has been handled and the readiness has been checked again, and the pair is still
  reported ready, by \<open>VideoMesh\<close> and by \<open>VideoPlayer\<close>.
\<close>

theorem ready_after_error_counterexample:
  "bothVideosReady (run idle_pair readiness_events) \<and>
   videosReady (run idle_pair readiness_events) \<and>
   maskElement (run idle_pair readiness_events) = Some failed \<and>
   readyState failed < 3 \<and> error failed = Some ''decode failed'' \<and>
   playerError (run idle_pair readiness_events) = Some ''Mask video error: decode failed''"
  by (simp add: readiness_events_def idle_pair_eq callback_defs buffered_def failed_def)

text \<open>
  Claim C2, amended. A readiness check sets the flag when both elements exist and both
  report \<open>readyState\<close> at or above 3 (\<open>HAVE_FUTURE_DATA\<close>), and otherwise leaves the flag as
  it was; the check does not look at the elements' error state, and the handlers of the
  \<open>error\<close> events leave the flag as it was.
\<close>

theorem checkReady_sets_flag_ignoring_errors:
  "bothVideosReady (checkReady s) =
     (bothVideosReady s \<or>
      (\<exists>v m. videoElement s = Some v \<and> maskElement s = Some m \<and>
             3 \<le> readyState v \<and> 3 \<le> readyState m)) \<and>
   bothVideosReady (handleVideoError s) = bothVideosReady s \<and>
   bothVideosReady (handleMaskError s) = bothVideosReady s"
  by (auto simp: checkReady_def handleVideoError_def handleMaskError_def onVideoError_def Let_def
      split: option.splits)

theorem checkReady_sets_flag_ignoring_errors_witness:
  "bothVideosReady (checkReady (idle_pair\<lparr>videoElement := Some (buffered 0 True),
      maskElement := Some (failed\<lparr>readyState := 3\<rparr>)\<rparr>)) \<and>
   \<not> bothVideosReady (checkReady (idle_pair\<lparr>videoElement := Some (buffered 0 True)\<rparr>))"
  using checkReady_sets_flag_ignoring_errors [of "idle_pair\<lparr>videoElement := Some (buffered 0 True),
      maskElement := Some (failed\<lparr>readyState := 3\<rparr>)\<rparr>"]
    checkReady_sets_flag_ignoring_errors [of "idle_pair\<lparr>videoElement := Some (buffered 0 True)\<rparr>"]
  by (simp add: idle_pair_eq buffered_def failed_def unloaded_def)

subsection \<open>Errors\<close>

text \<open>
  Claim C4, as stated, fails. The pair is playing with timer 1 running; the mask video
  fails with the message \<open>decode failed\<close> and its \<open>error\<close> event is delivered. Afterwards
  timer 1 still runs, the content video is not paused, the play flag is still set, and
  the message shown is \<open>Mask video error: decode failed\<close>, not the message alone.
\<close>

theorem error_while_playing_counterexample:
  "isPlaying playing_pair \<and> timers playing_pair = [1] \<and>
   timers (run playing_pair [Decoder MaskVideo failed, ErrorEvent MaskVideo]) = [1] \<and>
   syncIntervalRef (run playing_pair [Decoder MaskVideo failed, ErrorEvent MaskVideo]) = Some 1 \<and>
   videoElement (run playing_pair [Decoder MaskVideo failed, ErrorEvent MaskVideo]) =
     Some (buffered 0 False) \<and>
   error failed = Some ''decode failed'' \<and>
   playerError (run playing_pair [Decoder MaskVideo failed, ErrorEvent MaskVideo]) =
     Some ''Mask video error: decode failed'' \<and>
   isPlaying (run playing_pair [Decoder MaskVideo failed, ErrorEvent MaskVideo])"
  by (simp add: playing_pair_eq callback_defs failed_def)

text \<open>
  Claim C4, amended. When an element fires \<open>error\<close> and both elements exist, in any
  state, playing or not, the error shown by \<open>VideoPlayer\<close> becomes \<open>Main video error: \<close>
  or \<open>Mask video error: \<close> followed by the element's message (\<open>Unknown error\<close> when the
  element has no error object or an empty message), and the loading status becomes
  \<open>Error loading videos\<close>. Nothing else changes: the corrector's timer keeps running, no
  element is paused, and the play flag keeps its value.
\<close>

theorem error_event_only_reports:
  assumes "videoElement s = Some v" and "maskElement s = Some m"
  shows "step s (ErrorEvent MainVideo) =
           s\<lparr>playerError := Some (''Main video error: '' @ errorMessage v),
             loadingStatus := ''Error loading videos''\<rparr> \<and>
         step s (ErrorEvent MaskVideo) =
           s\<lparr>playerError := Some (''Mask video error: '' @ errorMessage m),
             loadingStatus := ''Error loading videos''\<rparr>"
  using assms by (simp add: handleVideoError_def handleMaskError_def onVideoError_def)

theorem error_event_only_reports_witness:
  "step (playing_pair\<lparr>maskElement := Some failed\<rparr>) (ErrorEvent MaskVideo) =
     playing_pair\<lparr>maskElement := Some failed,
       playerError := Some ''Mask video error: decode failed'',
       loadingStatus := ''Error loading videos''\<rparr> \<and>
   step (playing_pair\<lparr>maskElement := Some failed\<rparr>) (ErrorEvent MainVideo) =
     playing_pair\<lparr>maskElement := Some failed,
       playerError := Some ''Main video error: Unknown error'',
       loadingStatus := ''Error loading videos''\<rparr>"
  using error_event_only_reports [of "playing_pair\<lparr>maskElement := Some failed\<rparr>"
      "buffered 0 False" failed]
  by (simp add: playing_pair_eq errorMessage_def failed_def buffered_def)

subsection \<open>Play, pause and seek\<close>

text \<open>
  Claim C1, as stated, fails on resume. The pair was paused by the button with both
  videos at 5 seconds; pressing play again (or calling \<open>playVideo\<close>) puts both videos at
  0, not at the content video's position 5.
\<close>

theorem resume_restarts_from_zero_counterexample:
  "\<not> isPlaying paused_pair \<and> bothVideosReady paused_pair \<and>
   videoElement paused_pair = Some (buffered 5 True) \<and>
   videoElement (togglePlayPause Resolved Resolved paused_pair) = Some (buffered 0 False) \<and>
   maskElement (togglePlayPause Resolved Resolved paused_pair) = Some (buffered 0 False) \<and>
   videoElement (playVideo Resolved Resolved paused_pair) = Some (buffered 0 False) \<and>
   currentTime (buffered 5 True) = 5 \<and> currentTime (buffered 0 False) = 0"
  by (simp add: paused_pair_eq callback_defs buffered_def)

text \<open>
  Claim C1, amended. Whenever \<open>playVideo\<close> runs with both elements present, the pair
  ready and both promises of \<open>play()\<close> resolving, on a first play and on a resume alike,
  both videos are put at position 0 and are playing afterwards, and the requests are made
  in this order: position of the content video, position of the mask video, \<open>play()\<close> on
  the content video, \<open>play()\<close> on the mask video, and then the start of the corrector
  (clearing the timer the reference holds, if any, and registering a new one).
\<close>

theorem playVideo_resets_both_to_zero:
  assumes "videoElement s = Some v" and "maskElement s = Some m" and "bothVideosReady s"
  shows "videoElement (playVideo Resolved Resolved s) = Some (v\<lparr>currentTime := 0, paused := False\<rparr>) \<and>
         maskElement (playVideo Resolved Resolved s) = Some (m\<lparr>currentTime := 0, paused := False\<rparr>) \<and>
         calls (playVideo Resolved Resolved s) =
           calls s @
           [SetCurrentTime MainVideo 0, SetCurrentTime MaskVideo 0, Play MainVideo, Play MaskVideo] @
           (case syncIntervalRef s of
              None \<Rightarrow> []
            | Some j \<Rightarrow> if j \<noteq> 0 then [ClearInterval j] else []) @
           [SetInterval (nextTimerId s)]"
  using assms
  by (simp add: playVideo_def playVideo_body_def playVideo_rest_def rejection_def play_def
      set_currentTime_zero startSyncMonitoring_def setInterval_def clearInterval_def
      split: option.splits)

theorem playVideo_resets_both_to_zero_witness:
  "bothVideosReady paused_pair \<and>
   videoElement (playVideo Resolved Resolved paused_pair) = Some (buffered 0 False) \<and>
   maskElement (playVideo Resolved Resolved paused_pair) = Some (buffered 0 False) \<and>
   calls (playVideo Resolved Resolved paused_pair) =
     calls paused_pair @
     [SetCurrentTime MainVideo 0, SetCurrentTime MaskVideo 0, Play MainVideo, Play MaskVideo,
      SetInterval 2]"
  using playVideo_resets_both_to_zero [of paused_pair "buffered 5 True" "buffered 5 True"]
  by (simp add: paused_pair_eq buffered_def)

text \<open>
  Claim C5, as stated, fails: a seek while playing does not suspend the corrector. After
  \<open>seekTo 5\<close> on the playing pair the reference still holds timer 1 and the timer is still
  registered; when the content video has advanced to 5.3 seconds and the mask video has
  not moved, the very next tick corrects the mask video.
\<close>

theorem seek_while_playing_counterexample:
  "isPlaying playing_pair \<and>
   syncIntervalRef (step playing_pair (SeekTo 5)) = Some 1 \<and>
   timers (step playing_pair (SeekTo 5)) = [1] \<and>
   calls (run playing_pair [SeekTo 5, Decoder MainVideo (buffered 5.3 False), Tick 1]) =
     calls playing_pair @
     [SetCurrentTime MainVideo 5, SetCurrentTime MaskVideo 5, SetCurrentTime MaskVideo 5.3]"
  by (simp add: playing_pair_eq callback_defs buffered_def Let_def)

text \<open>
  Claim C5, amended. With both elements present, \<open>seekTo t\<close> assigns \<open>t\<close> to the position
  of the content video and then to the position of the mask video; each video ends at
  \<open>t\<close> brought into its own range from 0 to its duration when the duration is known, and
  at \<open>t\<close> itself otherwise, so both are at the same position whenever their durations
  agree. It changes nothing else: the corrector's reference and timer are as before, so
  the corrector is not suspended.
\<close>

theorem seekTo_sets_both_clamped_and_keeps_corrector:
  assumes "videoElement s = Some v" and "maskElement s = Some m"
  shows "seekTo t s =
           s\<lparr>videoElement := Some (set_currentTime t v),
             maskElement := Some (set_currentTime t m),
             calls := calls s @ [SetCurrentTime MainVideo t, SetCurrentTime MaskVideo t]\<rparr> \<and>
         currentTime (set_currentTime t v) =
           (case duration v of None \<Rightarrow> t | Some d \<Rightarrow> max 0 (min d t)) \<and>
         currentTime (set_currentTime t m) =
           (case duration m of None \<Rightarrow> t | Some d \<Rightarrow> max 0 (min d t)) \<and>
         (duration v = duration m \<longrightarrow>
            currentTime (set_currentTime t v) = currentTime (set_currentTime t m)) \<and>
         syncIntervalRef (seekTo t s) = syncIntervalRef s \<and>
         timers (seekTo t s) = timers s"
  using assms by (simp add: seekTo_def set_currentTime_def)

theorem seekTo_sets_both_clamped_and_keeps_corrector_witness:
  "seekTo 5 playing_pair =
     playing_pair\<lparr>videoElement := Some (buffered 5 False),
       maskElement := Some (buffered 5 False),
       calls := calls playing_pair @ [SetCurrentTime MainVideo 5, SetCurrentTime MaskVideo 5]\<rparr> \<and>
   seekTo 75 playing_pair =
     playing_pair\<lparr>videoElement := Some (buffered 60 False),
       maskElement := Some (buffered 60 False),
       calls := calls playing_pair @ [SetCurrentTime MainVideo 75, SetCurrentTime MaskVideo 75]\<rparr> \<and>
   seekTo (- 3.5) playing_pair =
     playing_pair\<lparr>videoElement := Some (buffered 0 False),
       maskElement := Some (buffered 0 False),
       calls := calls playing_pair @
         [SetCurrentTime MainVideo (- 3.5), SetCurrentTime MaskVideo (- 3.5)]\<rparr> \<and>
   timers (seekTo 5 playing_pair) = [1]"
  using seekTo_sets_both_clamped_and_keeps_corrector [of playing_pair "buffered 0 False"
      "buffered 0 False" 5]
    seekTo_sets_both_clamped_and_keeps_corrector [of playing_pair "buffered 0 False"
      "buffered 0 False" 75]
    seekTo_sets_both_clamped_and_keeps_corrector [of playing_pair "buffered 0 False"
      "buffered 0 False" "- 3.5"]
  by (simp add: playing_pair_eq buffered_def set_currentTime_def)

text \<open>
  Claim C6 holds of \<open>pauseVideo\<close> taken alone, and fails when a call of \<open>playVideo\<close> is
  still waiting for its promises. The pair is ready; the play button is pressed twice
  before the promises of \<open>play()\<close> have settled, so that \<open>pauseVideo\<close> runs between the two
  parts of \<open>playVideo\<close>; then both promises resolve. \<open>pauseVideo\<close> found no timer to clear;
  the rest of \<open>playVideo\<close> registers timer 1 after the two videos have been paused, with
  the play flag off. The timer goes on firing: when the content video is at 0.5 seconds
  and the mask video at 0, the tick moves the mask video, and no \<open>playVideo\<close> was called
  after the pause.
\<close>

theorem pause_before_play_settles_leaves_corrector_running:
  "\<not> isPlaying (run ready_pair double_press) \<and>
   videoElement (run ready_pair double_press) = Some (buffered 0 True) \<and>
   maskElement (run ready_pair double_press) = Some (buffered 0 True) \<and>
   syncIntervalRef (run ready_pair double_press) = Some 1 \<and>
   timers (run ready_pair double_press) = [1] \<and>
   calls (run ready_pair double_press) =
     [SetCurrentTime MainVideo 0, SetCurrentTime MaskVideo 0, Play MainVideo, Play MaskVideo,
      Pause MainVideo, Pause MaskVideo, SetInterval 1] \<and>
   calls (run ready_pair (double_press @ [Decoder MainVideo (buffered 0.5 True), Tick 1])) =
     [SetCurrentTime MainVideo 0, SetCurrentTime MaskVideo 0, Play MainVideo, Play MaskVideo,
      Pause MainVideo, Pause MaskVideo, SetInterval 1, SetCurrentTime MaskVideo 0.5]"
  by (simp add: double_press_def ready_pair_eq callback_defs buffered_def Let_def)

text \<open>
  Claim C8, as stated, fails for \<open>playVideo\<close>. The pair is playing with both videos at 5
  seconds; a click on the mesh calls \<open>playVideo\<close> again, which puts both videos back at 0
  and calls \<open>play()\<close> on both again, and when the promises have resolved timer 1 is
  replaced by timer 2.
\<close>

theorem play_while_playing_counterexample:
  "isPlaying (playing_at 5 5) \<and>
   videoElement (playing_at 5 5) = Some (buffered 5 False) \<and>
   maskElement (playing_at 5 5) = Some (buffered 5 False) \<and>
   videoElement (step (playing_at 5 5) (PlayVideo Resolved Resolved)) = Some (buffered 0 False) \<and>
   maskElement (step (playing_at 5 5) (PlayVideo Resolved Resolved)) = Some (buffered 0 False) \<and>
   calls (run (playing_at 5 5) [PlayVideo Resolved Resolved, PlaySettled MainVideo]) =
     calls (playing_at 5 5) @
     [SetCurrentTime MainVideo 0, SetCurrentTime MaskVideo 0, Play MainVideo, Play MaskVideo,
      ClearInterval 1, SetInterval 2] \<and>
   buffered 0 False \<noteq> buffered 5 False"
  by (simp add: playing_at_eq playing_pair_eq callback_defs buffered_def)

text \<open>
  Claim C8, amended. With both elements present, a second \<open>pauseVideo\<close> right after the
  first only calls \<open>pause()\<close> again on the two videos, which are paused already: no
  position is assigned, no timer is touched, and the state is otherwise the state after
  the first call. A call of \<open>playVideo\<close> on a ready pair, playing or not, is not without
  effect: it puts both videos at position 0 again and calls \<open>play()\<close> on both again. When
  no earlier call is still pending and the promises of this one settle before anything
  else runs, then, if both resolve and the corrector is running, the corrector's timer is
  replaced by a fresh one, so that there is still exactly one timer, and the play flag,
  the error and the readiness flags keep their values; and, if a promise rejects, the
  corrector is left as it was, the error becomes \<open>Playback error: \<close> followed by the reason
  and the loading status becomes \<open>Error loading videos\<close>.
\<close>

theorem pause_twice_harmless_play_again_restarts:
  assumes "videoElement s = Some v" and "maskElement s = Some m"
  shows "pauseVideo (pauseVideo s) =
           (pauseVideo s)\<lparr>calls := calls (pauseVideo s) @ [Pause MainVideo, Pause MaskVideo]\<rparr> \<and>
         (bothVideosReady s \<longrightarrow>
            playVideo_call r1 r2 s =
              s\<lparr>videoElement := Some (play r1 (v\<lparr>currentTime := 0\<rparr>)),
                maskElement := Some (play r2 (m\<lparr>currentTime := 0\<rparr>)),
                calls := calls s @
                  [SetCurrentTime MainVideo 0, SetCurrentTime MaskVideo 0,
                   Play MainVideo, Play MaskVideo],
                pending := pending s @ [(r1, r2)]\<rparr>) \<and>
         (bothVideosReady s \<and> pending s = [] \<and> corrector_inv s \<and> syncIntervalRef s = Some j \<longrightarrow>
            playVideo_settle h (playVideo_call Resolved Resolved s) =
              s\<lparr>videoElement := Some (v\<lparr>currentTime := 0, paused := False\<rparr>),
                maskElement := Some (m\<lparr>currentTime := 0, paused := False\<rparr>),
                syncIntervalRef := Some (nextTimerId s),
                timers := [nextTimerId s],
                nextTimerId := Suc (nextTimerId s),
                calls := calls s @
                  [SetCurrentTime MainVideo 0, SetCurrentTime MaskVideo 0,
                   Play MainVideo, Play MaskVideo,
                   ClearInterval j, SetInterval (nextTimerId s)]\<rparr>) \<and>
         (bothVideosReady s \<and> pending s = [] \<and> rejection h r1 r2 = Some e \<longrightarrow>
            playVideo_settle h (playVideo_call r1 r2 s) =
              s\<lparr>videoElement := Some (play r1 (v\<lparr>currentTime := 0\<rparr>)),
                maskElement := Some (play r2 (m\<lparr>currentTime := 0\<rparr>)),
                playerError := Some (''Playback error: '' @ e),
                loadingStatus := ''Error loading videos'',
                calls := calls s @
                  [SetCurrentTime MainVideo 0, SetCurrentTime MaskVideo 0,
                   Play MainVideo, Play MaskVideo]\<rparr>)"
proof -
  have twice: "pauseVideo (pauseVideo s) =
           (pauseVideo s)\<lparr>calls := calls (pauseVideo s) @ [Pause MainVideo, Pause MaskVideo]\<rparr>"
    using assms
    by (simp add: pauseVideo_def stopSyncMonitoring_def clearInterval_def pause_def Let_def
        split: option.splits)
  have call: "bothVideosReady s \<Longrightarrow>
            playVideo_call r1 r2 s =
              s\<lparr>videoElement := Some (play r1 (v\<lparr>currentTime := 0\<rparr>)),
                maskElement := Some (play r2 (m\<lparr>currentTime := 0\<rparr>)),
                calls := calls s @
                  [SetCurrentTime MainVideo 0, SetCurrentTime MaskVideo 0,
                   Play MainVideo, Play MaskVideo],
                pending := pending s @ [(r1, r2)]\<rparr>" for r1 r2
    using assms
    by (simp add: playVideo_call_def playVideo_body_def set_currentTime_zero)
  have resolved: "playVideo_settle h (playVideo_call Resolved Resolved s) =
              s\<lparr>videoElement := Some (v\<lparr>currentTime := 0, paused := False\<rparr>),
                maskElement := Some (m\<lparr>currentTime := 0, paused := False\<rparr>),
                syncIntervalRef := Some (nextTimerId s),
                timers := [nextTimerId s],
                nextTimerId := Suc (nextTimerId s),
                calls := calls s @
                  [SetCurrentTime MainVideo 0, SetCurrentTime MaskVideo 0,
                   Play MainVideo, Play MaskVideo,
                   ClearInterval j, SetInterval (nextTimerId s)]\<rparr>"
    if "bothVideosReady s" "pending s = []" "corrector_inv s" "syncIntervalRef s = Some j"
  proof -
    have j: "j \<noteq> 0" "timers s = [j]" using that(3,4) by (simp_all add: corrector_inv_def)
    show ?thesis
      using that(2,4) j
      by (simp add: call [OF that(1)] playVideo_settle_def playVideo_rest_def rejection_def
          play_def startSyncMonitoring_def setInterval_def clearInterval_def)
  qed
  have rejected: "playVideo_settle h (playVideo_call r1 r2 s) =
              s\<lparr>videoElement := Some (play r1 (v\<lparr>currentTime := 0\<rparr>)),
                maskElement := Some (play r2 (m\<lparr>currentTime := 0\<rparr>)),
                playerError := Some (''Playback error: '' @ e),
                loadingStatus := ''Error loading videos'',
                calls := calls s @
                  [SetCurrentTime MainVideo 0, SetCurrentTime MaskVideo 0,
                   Play MainVideo, Play MaskVideo]\<rparr>"
    if "bothVideosReady s" "pending s = []" "rejection h r1 r2 = Some e"
    using that(2,3)
    by (simp add: call [OF that(1)] playVideo_settle_def playVideo_rest_def onVideoError_def)
  from twice call resolved rejected show ?thesis by blast
qed

theorem pause_twice_harmless_play_again_restarts_witness:
  "pauseVideo (pauseVideo (playing_at 5 5)) =
     (pauseVideo (playing_at 5 5))\<lparr>calls :=
        calls (pauseVideo (playing_at 5 5)) @ [Pause MainVideo, Pause MaskVideo]\<rparr> \<and>
   playVideo_settle MainVideo (playVideo_call Resolved Resolved (playing_at 5 5)) =
     (playing_at 5 5)\<lparr>videoElement := Some (buffered 0 False),
        maskElement := Some (buffered 0 False),
        syncIntervalRef := Some 2, timers := [2], nextTimerId := 3,
        calls := calls (playing_at 5 5) @
          [SetCurrentTime MainVideo 0, SetCurrentTime MaskVideo 0,
           Play MainVideo, Play MaskVideo, ClearInterval 1, SetInterval 2]\<rparr> \<and>
   playVideo_settle MaskVideo
       (playVideo_call Resolved (Rejected ''NotAllowedError'') (playing_at 5 5)) =
     (playing_at 5 5)\<lparr>videoElement := Some (buffered 0 False),
        maskElement := Some (buffered 0 False),
        playerError := Some ''Playback error: NotAllowedError'',
        loadingStatus := ''Error loading videos'',
        calls := calls (playing_at 5 5) @
          [SetCurrentTime MainVideo 0, SetCurrentTime MaskVideo 0,
           Play MainVideo, Play MaskVideo]\<rparr>"
proof -
  have h1: "videoElement (playing_at 5 5) = Some (buffered 5 False)"
    and h2: "maskElement (playing_at 5 5) = Some (buffered 5 False)"
    and h3: "bothVideosReady (playing_at 5 5)"
    and h5: "syncIntervalRef (playing_at 5 5) = Some 1"
    and h6: "pending (playing_at 5 5) = []"
    and n: "nextTimerId (playing_at 5 5) = 2"
    by (simp_all add: playing_at_eq playing_pair_eq)
  have h4: "corrector_inv (playing_at 5 5)"
    by (simp add: playing_at_eq playing_pair_eq corrector_inv_def)
  have b: "buffered 5 False\<lparr>currentTime := 0, paused := False\<rparr> = buffered 0 False"
    "play Resolved (buffered 5 False\<lparr>currentTime := 0\<rparr>) = buffered 0 False"
    "play (Rejected ''NotAllowedError'') (buffered 5 False\<lparr>currentTime := 0\<rparr>) =
       buffered 0 False"
    by (simp_all add: buffered_def play_def)
  have r: "rejection MaskVideo Resolved (Rejected ''NotAllowedError'') = Some ''NotAllowedError''"
    by (simp add: rejection_def)
  note first = pause_twice_harmless_play_again_restarts [OF h1 h2, of Resolved Resolved 1 MainVideo
      "''NotAllowedError''"]
  note second = pause_twice_harmless_play_again_restarts [OF h1 h2, of Resolved
      "Rejected ''NotAllowedError''" 1 MaskVideo "''NotAllowedError''"]
  have p1: "pauseVideo (pauseVideo (playing_at 5 5)) =
     (pauseVideo (playing_at 5 5))\<lparr>calls :=
        calls (pauseVideo (playing_at 5 5)) @ [Pause MainVideo, Pause MaskVideo]\<rparr>"
    using first by (rule conjunct1)
  have p2: "playVideo_settle MainVideo (playVideo_call Resolved Resolved (playing_at 5 5)) =
     (playing_at 5 5)\<lparr>videoElement := Some (buffered 0 False),
        maskElement := Some (buffered 0 False),
        syncIntervalRef := Some 2, timers := [2], nextTimerId := 3,
        calls := calls (playing_at 5 5) @
          [SetCurrentTime MainVideo 0, SetCurrentTime MaskVideo 0,
           Play MainVideo, Play MaskVideo, ClearInterval 1, SetInterval 2]\<rparr>"
    using first [THEN conjunct2, THEN conjunct2, THEN conjunct1] h3 h4 h5 h6
    by (simp add: n b)
  have p3: "playVideo_settle MaskVideo
       (playVideo_call Resolved (Rejected ''NotAllowedError'') (playing_at 5 5)) =
     (playing_at 5 5)\<lparr>videoElement := Some (buffered 0 False),
        maskElement := Some (buffered 0 False),
        playerError := Some ''Playback error: NotAllowedError'',
        loadingStatus := ''Error loading videos'',
        calls := calls (playing_at 5 5) @
          [SetCurrentTime MainVideo 0, SetCurrentTime MaskVideo 0,
           Play MainVideo, Play MaskVideo]\<rparr>"
    using second [THEN conjunct2, THEN conjunct2, THEN conjunct2] h3 h6 r
    by (simp add: b)
  from p1 p2 p3 show ?thesis by (intro conjI)
qed

end
